theory Spec2Isabelle
  imports Main
begin

section \<open>The feature registry of xfeature (packages/core/src/index.ts)\<close>

text \<open>
  The module keeps one process-wide \<^verbatim>\<open>Map<string, FeatureObject>\<close> and a graph of
  feature objects that are mutated in place.  The embedding separates what the code
  never changes after \<^verbatim>\<open>defineFeature\<close> from what it assigns later.

  \<^item> The identity of an object, its \<^verbatim>\<open>symFeatureLeafName\<close> (defined non-writable) and its
    enumerable string-keyed properties are fixed at creation: they are the datatype
    \<open>featureObject\<close>, the identity being a reference number.  The properties are the
    spread copy of \<^verbatim>\<open>subfeatures\<close> without the six keys that \<^verbatim>\<open>Object.defineProperty\<close>
    then redefines as non-enumerable methods.  A property value for which
    \<^verbatim>\<open>isFeatureObject\<close> is false is \<open>None\<close>.
  \<^item> \<^verbatim>\<open>symFeatureName\<close> and \<^verbatim>\<open>symFeatureEnabled\<close> are assigned after creation
    (by \<^verbatim>\<open>prefixFeatureName\<close>, \<^verbatim>\<open>$enable\<close>, \<^verbatim>\<open>$disable\<close>, \<^verbatim>\<open>loadFeatures\<close>): they live in
    a heap indexed by the reference, so that two occurrences of one object share them.
  \<^item> Strings are \<open>string\<close>; a character stands for one code unit below 256.
  \<^item> A property record passed to \<^verbatim>\<open>defineFeature\<close> or \<^verbatim>\<open>registerFeatures\<close> is the list of
    its entries in \<^verbatim>\<open>for ... in\<close> order; its feature values are objects made by
    \<^verbatim>\<open>defineFeature\<close>.
\<close>

datatype featureObject =
  FeatureObject (ref: nat) (symFeatureLeafName: string)
    (properties: "(string \<times> featureObject option) list")

record cell =
  symFeatureName :: string
  symFeatureEnabled :: "bool option"

text \<open>
  What an element of the array given to \<^verbatim>\<open>loadFeatures\<close> can be: a feature object, the
  object \<^verbatim>\<open>{[symFeatureDisableFlag]: true, [symFeatureName]: n}\<close> that \<^verbatim>\<open>$asDisabled()\<close>
  returns, or a value that \<^verbatim>\<open>isFeatureObject\<close> rejects.
\<close>

datatype internalFeatureObject =
  Feature featureObject
| DisabledMarker string
| NotFeature

record world =
  heap :: "nat \<Rightarrow> cell"
  nextRef :: nat
  featureRegistry :: "(string \<times> featureObject) list"

datatype error = Error string

subsection \<open>Strings and the JavaScript Map\<close>

definition includes_dot :: "string \<Rightarrow> bool" where
  "includes_dot s = (CHR ''.'' \<in> set s)"

definition startsWith_dash :: "string \<Rightarrow> bool" where
  "startsWith_dash s = (case s of [] \<Rightarrow> False | c # _ \<Rightarrow> c = CHR ''-'')"

text \<open>\<^verbatim>\<open>s.slice(1)\<close>\<close>

definition slice1 :: "string \<Rightarrow> string" where
  "slice1 s = drop 1 s"

text \<open>\<^verbatim>\<open>parts.join(sep)\<close>\<close>

fun join :: "string \<Rightarrow> string list \<Rightarrow> string" where
  "join sep [] = []"
| "join sep [p] = p"
| "join sep (p # q # ps) = p @ sep @ join sep (q # ps)"

text \<open>\<^verbatim>\<open>s.split(".")\<close>: the empty string gives one empty part.\<close>

fun split_dot :: "string \<Rightarrow> string list" where
  "split_dot [] = [[]]"
| "split_dot (c # cs) =
     (if c = CHR ''.'' then [] # split_dot cs
      else (case split_dot cs of [] \<Rightarrow> [[c]] | p # ps \<Rightarrow> (c # p) # ps))"

definition isSeparator :: "char \<Rightarrow> bool" where
  "isSeparator c = (c = CHR '','' \<or> c = CHR 0x0A \<or> c = CHR '' '')"

text \<open>\<^verbatim>\<open>s.split(/[,\n ]+/)\<close>: a run of separators is one cut.\<close>

function split_separators :: "string \<Rightarrow> string list" where
  "split_separators [] = [[]]"
| "split_separators (c # cs) =
     (if isSeparator c then [] # split_separators (dropWhile isSeparator cs)
      else (case split_separators cs of [] \<Rightarrow> [[c]] | p # ps \<Rightarrow> (c # p) # ps))"
  by pat_completeness auto
termination
  by (relation "measure length") (auto simp: length_dropWhile_le less_Suc_eq_le)

text \<open>The white space and line terminators of \<^verbatim>\<open>String.prototype.trim\<close> below 256.\<close>

definition isWhiteSpace :: "char \<Rightarrow> bool" where
  "isWhiteSpace c =
     (c \<in> set [CHR 0x09, CHR 0x0A, CHR 0x0B, CHR 0x0C, CHR 0x0D, CHR 0x20, CHR 0xA0])"

definition trim :: "string \<Rightarrow> string" where
  "trim s = rev (dropWhile isWhiteSpace (rev (dropWhile isWhiteSpace s)))"

text \<open>
  \<^verbatim>\<open>Map.prototype.set\<close>: an existing key keeps its place and gets the new value, a new
  key goes to the end.  \<^verbatim>\<open>get\<close> is \<open>map_of\<close>, \<^verbatim>\<open>keys()\<close> and \<^verbatim>\<open>values()\<close> are the
  projections, in insertion order.
\<close>

fun map_set :: "'k \<Rightarrow> 'v \<Rightarrow> ('k \<times> 'v) list \<Rightarrow> ('k \<times> 'v) list" where
  "map_set k v [] = [(k, v)]"
| "map_set k v ((k', v') # kvs) =
     (if k' = k then (k, v) # kvs else (k', v') # map_set k v kvs)"

subsection \<open>Feature objects\<close>

text \<open>\<^verbatim>\<open>$name()\<close>, \<^verbatim>\<open>$asDisabled()\<close>, \<^verbatim>\<open>$enable()\<close>, \<^verbatim>\<open>$disable()\<close>\<close>

definition name_of :: "world \<Rightarrow> featureObject \<Rightarrow> string" where
  "name_of w feature = symFeatureName (heap w (ref feature))"

definition enabled_of :: "world \<Rightarrow> featureObject \<Rightarrow> bool option" where
  "enabled_of w feature = symFeatureEnabled (heap w (ref feature))"

definition asDisabled :: "world \<Rightarrow> featureObject \<Rightarrow> internalFeatureObject" where
  "asDisabled w feature = DisabledMarker (name_of w feature)"

definition set_enabled :: "featureObject \<Rightarrow> bool option \<Rightarrow> world \<Rightarrow> world" where
  "set_enabled feature v w =
     w\<lparr>heap := (heap w)(ref feature := (heap w (ref feature))\<lparr>symFeatureEnabled := v\<rparr>)\<rparr>"

definition enable :: "featureObject \<Rightarrow> world \<Rightarrow> world" where
  "enable feature w = set_enabled feature (Some True) w"

definition disable :: "featureObject \<Rightarrow> world \<Rightarrow> world" where
  "disable feature w = set_enabled feature (Some False) w"

subsection \<open>prefixFeatureName and defineFeature\<close>

fun prefixFeatureName ::
  "string \<Rightarrow> (string \<times> featureObject option) list \<Rightarrow> (nat \<Rightarrow> cell) \<Rightarrow> (nat \<Rightarrow> cell)" where
  "prefixFeatureName feature [] h = h"
| "prefixFeatureName feature ((subfeatureKey, None) # rest) h =
     prefixFeatureName feature rest h"
| "prefixFeatureName feature ((subfeatureKey, Some (FeatureObject a leaf subs)) # rest) h =
     (let prefixedFeatureName = feature @ ''.'' @ leaf;
          h1 = h(a := (h a)\<lparr>symFeatureName := prefixedFeatureName\<rparr>);
          h2 = prefixFeatureName prefixedFeatureName subs h1
      in prefixFeatureName feature rest h2)"

text \<open>
  The keys that \<^verbatim>\<open>defineFeature\<close> defines on the new object with
  \<^verbatim>\<open>Object.defineProperty(featureObject, key, { enumerable: false, value: ... })\<close>.  A
  subfeature that the spread has copied under one of them is replaced by the method and
  is no longer an enumerable property of the object.
\<close>

definition method_names :: "string list" where
  "method_names =
     [''$name'', ''$asDisabled'', ''$enable'', ''$disable'', ''$isEnabled'', ''$isDisabled'']"

definition own_enumerable ::
  "(string \<times> featureObject option) list \<Rightarrow> (string \<times> featureObject option) list" where
  "own_enumerable subfeatures = filter (\<lambda>(key, v). key \<notin> set method_names) subfeatures"

text \<open>
  \<^verbatim>\<open>defineFeature(feature, subfeatures)\<close>: a new object (the next free reference) whose
  name and leaf name are \<open>feature\<close> and whose enumerable properties are those of
  \<open>subfeatures\<close> that the methods have not replaced; then
  \<^verbatim>\<open>prefixFeatureName(feature, subfeatures || {})\<close> renames in place the features of the
  record that was passed, those under the keys of the methods included.
\<close>

definition defineFeature ::
  "string \<Rightarrow> (string \<times> featureObject option) list \<Rightarrow> world \<Rightarrow> featureObject \<times> world" where
  "defineFeature feature subfeatures w =
     (let a = nextRef w;
          h0 = (heap w)(a := \<lparr>symFeatureName = feature, symFeatureEnabled = None\<rparr>);
          h1 = prefixFeatureName feature subfeatures h0
      in (FeatureObject a feature (own_enumerable subfeatures),
          w\<lparr>heap := h1, nextRef := Suc a\<rparr>))"

subsection \<open>loadFeatures\<close>

text \<open>The first loop of \<^verbatim>\<open>loadFeatures\<close>: \<^verbatim>\<open>delete feature[symFeatureEnabled]\<close> on every value.\<close>

fun delete_enabled :: "featureObject list \<Rightarrow> world \<Rightarrow> world" where
  "delete_enabled [] w = w"
| "delete_enabled (feature # rest) w = delete_enabled rest (set_enabled feature None w)"

text \<open>The second loop.\<close>

fun apply_features :: "internalFeatureObject list \<Rightarrow> world \<Rightarrow> world" where
  "apply_features [] w = w"
| "apply_features (NotFeature # rest) w = apply_features rest w"
| "apply_features (DisabledMarker n # rest) w =
     (case map_of (featureRegistry w) n of
        Some baseFeature \<Rightarrow> apply_features rest (set_enabled baseFeature (Some False) w)
      | None \<Rightarrow> apply_features rest w)"
| "apply_features (Feature feature # rest) w =
     apply_features rest (set_enabled feature (Some True) w)"

definition loadFeatures :: "internalFeatureObject list \<Rightarrow> bool \<Rightarrow> world \<Rightarrow> world" where
  "loadFeatures features override w =
     apply_features features
       (if override then delete_enabled (map snd (featureRegistry w)) w else w)"

subsection \<open>getFeature and isFeatureEnabled\<close>

text \<open>\<open>None\<close> is \<^verbatim>\<open>null\<close>.\<close>

definition getFeature :: "string \<Rightarrow> world \<Rightarrow> internalFeatureObject option" where
  "getFeature feature w =
     (if startsWith_dash feature then
        (case map_of (featureRegistry w) (slice1 feature) of
           Some featureObject \<Rightarrow> Some (asDisabled w featureObject)
         | None \<Rightarrow> None)
      else map_option Feature (map_of (featureRegistry w) feature))"

text \<open>
  \<^verbatim>\<open>featureName.split(".").map((_, index, parts) => parts.slice(0, index + 1).join("."))\<close>
\<close>

definition parents_of :: "string \<Rightarrow> string list" where
  "parents_of featureName =
     (let parts = split_dot featureName
      in map (\<lambda>index. join ''.'' (take (index + 1) parts)) [0..<length parts])"

text \<open>
  The \<^verbatim>\<open>while (parents.length > 0)\<close> loop; the argument is the array as a stack, the
  element that \<^verbatim>\<open>pop()\<close> takes next at the head.  \<open>None\<close>: the loop ran to its end.
\<close>

fun pop_parents :: "world \<Rightarrow> string list \<Rightarrow> bool option" where
  "pop_parents w [] = None"
| "pop_parents w (parentName # parents) =
     (if parentName = [] then pop_parents w parents
      else (case map_of (featureRegistry w) parentName of
              None \<Rightarrow> pop_parents w parents
            | Some parent \<Rightarrow>
                (case enabled_of w parent of
                   Some b \<Rightarrow> Some b
                 | None \<Rightarrow> pop_parents w parents)))"

definition isFeatureEnabled :: "world \<Rightarrow> featureObject \<Rightarrow> bool" where
  "isFeatureEnabled w feature =
     (let featureName = name_of w feature
      in case enabled_of w feature of
           Some b \<Rightarrow> b
         | None \<Rightarrow>
             (case pop_parents w (rev (parents_of featureName)) of
                Some b \<Rightarrow> b
              | None \<Rightarrow> True))"

text \<open>
  The same function in src/index.ts, where the loop stores what it finds in the
  feature itself (\<^verbatim>\<open>feature[symFeatureEnabled] = parent[symFeatureEnabled]; break\<close>, then
  \<^verbatim>\<open>feature[symFeatureEnabled] ??= true\<close>).  It returns the answer and the new world.
\<close>

definition isFeatureEnabled_src_index :: "world \<Rightarrow> featureObject \<Rightarrow> bool \<times> world" where
  "isFeatureEnabled_src_index w feature =
     (let featureName = name_of w feature
      in case enabled_of w feature of
           Some b \<Rightarrow> (b, w)
         | None \<Rightarrow>
             (let v = (case pop_parents w (rev (parents_of featureName)) of
                         Some b \<Rightarrow> b
                       | None \<Rightarrow> True)
              in (v, set_enabled feature (Some v) w)))"

subsection \<open>loadFeaturesFromString and registerFeatures\<close>

definition featureNames :: "string \<Rightarrow> string list" where
  "featureNames features = filter (\<lambda>n. n \<noteq> []) (map trim (split_separators features))"

definition not_found :: "string \<Rightarrow> world \<Rightarrow> error" where
  "not_found featureName w =
     Error (''Feature '' @ featureName @ '' not found. Available features: ''
            @ join '', '' (map fst (featureRegistry w)))"

text \<open>
  The second \<^verbatim>\<open>map\<close> of \<^verbatim>\<open>loadFeaturesFromString\<close> with its \<^verbatim>\<open>filter\<close>: the tokens
  \<^verbatim>\<open>*\<close> and \<^verbatim>\<open>-*\<close> give nothing, the others are looked up in order and the first one
  that \<^verbatim>\<open>getFeature\<close> does not find throws.
\<close>

fun featuresToEnable :: "string list \<Rightarrow> world \<Rightarrow> error + internalFeatureObject list" where
  "featuresToEnable [] w = Inr []"
| "featuresToEnable (featureName # rest) w =
     (if featureName = ''*'' \<or> featureName = ''-*'' then featuresToEnable rest w
      else (case getFeature featureName w of
              None \<Rightarrow> Inl (not_found featureName w)
            | Some featureObject \<Rightarrow>
                (case featuresToEnable rest w of
                   Inl e \<Rightarrow> Inl e
                 | Inr found \<Rightarrow> Inr (featureObject # found))))"

text \<open>The argument of the first \<^verbatim>\<open>loadFeatures\<close> call: the top-level features, as disabled.\<close>

definition topLevelDisabled :: "world \<Rightarrow> internalFeatureObject list" where
  "topLevelDisabled w =
     map (asDisabled w)
       (filter (\<lambda>feature. \<not> includes_dot (name_of w feature)) (map snd (featureRegistry w)))"

text \<open>
  \<open>Inl (e, w')\<close>: the call threw \<open>e\<close> and left the world \<open>w'\<close>; \<open>Inr w'\<close>: it returned.
\<close>

definition loadFeaturesFromString :: "string \<Rightarrow> world \<Rightarrow> error \<times> world + world" where
  "loadFeaturesFromString features w =
     (let names = featureNames features;
          disablesAllFeatures = (''-*'' \<in> set names);
          w1 = (if disablesAllFeatures then loadFeatures (topLevelDisabled w) False w else w)
      in case featuresToEnable names w1 of
           Inl e \<Rightarrow> Inl (e, w1)
         | Inr found \<Rightarrow> Inr (loadFeatures found False w1))"

fun register :: "(string \<times> featureObject option) list \<Rightarrow> world \<Rightarrow> world" where
  "register [] w = w"
| "register ((featureName, None) # rest) w = register rest w"
| "register ((featureName, Some (FeatureObject a leaf subs)) # rest) w =
     (let feature = FeatureObject a leaf subs;
          w1 = w\<lparr>featureRegistry :=
                   map_set (name_of w feature) feature (featureRegistry w)\<rparr>;
          w2 = register subs w1
      in register rest w2)"

text \<open>
  \<^verbatim>\<open>options.parseEnv\<close> is absent, a boolean or a string; \<^verbatim>\<open>options.override\<close> is read for
  its truth value only.  \<open>env\<close> is \<^verbatim>\<open>process.env\<close>.
\<close>

datatype parseEnvOption = ParseEnvAbsent | ParseEnvBool bool | ParseEnvString string

record registerOptions =
  override :: bool
  parseEnv :: parseEnvOption

fun parseEnv_truthy :: "parseEnvOption \<Rightarrow> bool" where
  "parseEnv_truthy ParseEnvAbsent = True"
| "parseEnv_truthy (ParseEnvBool b) = b"
| "parseEnv_truthy (ParseEnvString s) = (s \<noteq> [])"

fun env_features :: "parseEnvOption \<Rightarrow> (string \<rightharpoonup> string) \<Rightarrow> string" where
  "env_features (ParseEnvString s) env = (case env s of Some v \<Rightarrow> v | None \<Rightarrow> [])"
| "env_features _ env = (case env ''FEATURES'' of Some v \<Rightarrow> v | None \<Rightarrow> [])"

definition registerFeatures ::
  "(string \<times> featureObject option) list \<Rightarrow> registerOptions \<Rightarrow> (string \<rightharpoonup> string)
     \<Rightarrow> world \<Rightarrow> error \<times> world + world" where
  "registerFeatures features options env w =
     (let w0 = (if override options then w\<lparr>featureRegistry := []\<rparr> else w);
          w1 = register features w0
      in if parseEnv_truthy (parseEnv options)
         then loadFeaturesFromString (env_features (parseEnv options) env) w1
         else Inr w1)"

section \<open>Vocabulary of the properties\<close>

text \<open>The world that a call leaves behind, whether it returned or threw.\<close>

definition world_left :: "error \<times> world + world \<Rightarrow> world" where
  "world_left r = (case r of Inl (e, w) \<Rightarrow> w | Inr w \<Rightarrow> w)"

text \<open>
  A name that the loop of \<^verbatim>\<open>isFeatureEnabled\<close> passes over: the empty string, a name
  that is not a key of the registry, or the key of a feature with no state of its own.
\<close>

definition transparent :: "world \<Rightarrow> string \<Rightarrow> bool" where
  "transparent w p =
     (p = [] \<or> (case map_of (featureRegistry w) p of
                   None \<Rightarrow> True
                 | Some g \<Rightarrow> enabled_of w g = None))"

text \<open>
  The references of the registered features whose current name has no dot, and the world
  in which exactly the features of a set of references have been disabled.
\<close>

definition registered_roots :: "world \<Rightarrow> nat set" where
  "registered_roots w =
     set (map ref (filter (\<lambda>f. \<not> includes_dot (name_of w f)) (map snd (featureRegistry w))))"

definition disable_refs :: "nat set \<Rightarrow> world \<Rightarrow> world" where
  "disable_refs S w =
     w\<lparr>heap := (\<lambda>a. if a \<in> S then (heap w a)\<lparr>symFeatureEnabled := Some False\<rparr>
                     else heap w a)\<rparr>"

text \<open>
  Every registered feature whose name has no dot is what the registry returns for that
  name.
\<close>

definition roots_found :: "world \<Rightarrow> bool" where
  "roots_found w =
     list_all (\<lambda>f. includes_dot (name_of w f) \<or>
                 map_option ref (map_of (featureRegistry w) (name_of w f)) = Some (ref f))
       (map snd (featureRegistry w))"

text \<open>
  The registries that the module builds: the keys are distinct, every registered object
  has been allocated, and an object whose name has no dot is stored under that name
  (\<^verbatim>\<open>register\<close> stores an object under its current name, and a later renaming gives
  it a name with a dot).
\<close>

definition registry_ok :: "world \<Rightarrow> bool" where
  "registry_ok w =
     (distinct (map fst (featureRegistry w)) \<and>
      list_all (\<lambda>(k, f). ref f < nextRef w \<and> (includes_dot (name_of w f) \<or> k = name_of w f))
        (featureRegistry w))"

text \<open>The flag that a token names, and the tokens for which the lookup fails.\<close>

definition flag_named :: "string \<Rightarrow> string" where
  "flag_named token = (if startsWith_dash token then slice1 token else token)"

definition unknown_token :: "world \<Rightarrow> string \<Rightarrow> bool" where
  "unknown_token w token =
     (token \<noteq> ''*'' \<and> token \<noteq> ''-*'' \<and>
      map_of (featureRegistry w) (flag_named token) = None)"

text \<open>
  The references of the objects of a forest, one for each position at which an object
  occurs; and the naming invariant below a parent name: the name of every feature is
  its parent's name, a dot and its own leaf name, at every depth.
\<close>

fun refs_of :: "(string \<times> featureObject option) list \<Rightarrow> nat list" where
  "refs_of [] = []"
| "refs_of ((k, None) # rest) = refs_of rest"
| "refs_of ((k, Some (FeatureObject a leaf subs)) # rest) = a # refs_of subs @ refs_of rest"

fun well_named ::
  "(nat \<Rightarrow> cell) \<Rightarrow> string \<Rightarrow> (string \<times> featureObject option) list \<Rightarrow> bool" where
  "well_named h parentName [] = True"
| "well_named h parentName ((k, None) # rest) = well_named h parentName rest"
| "well_named h parentName ((k, Some (FeatureObject a leaf subs)) # rest) =
     (symFeatureName (h a) = parentName @ ''.'' @ leaf \<and>
      well_named h (symFeatureName (h a)) subs \<and>
      well_named h parentName rest)"

text \<open>
  What one element of the array makes \<^verbatim>\<open>loadFeatures\<close> assign (the reference and the
  value), the value that a whole array assigns last to a reference, and two worlds with
  the same registry and the same names.
\<close>

fun target ::
  "(string \<times> featureObject) list \<Rightarrow> internalFeatureObject \<Rightarrow> (nat \<times> bool) option" where
  "target reg NotFeature = None"
| "target reg (DisabledMarker n) = map_option (\<lambda>g. (ref g, False)) (map_of reg n)"
| "target reg (Feature f) = Some (ref f, True)"

fun assigned ::
  "(string \<times> featureObject) list \<Rightarrow> internalFeatureObject list \<Rightarrow> nat \<Rightarrow> bool option" where
  "assigned reg [] a = None"
| "assigned reg (d # ds) a =
     (case assigned reg ds a of
        Some b \<Rightarrow> Some b
      | None \<Rightarrow> (case target reg d of
                   Some (r, b) \<Rightarrow> if r = a then Some b else None
                 | None \<Rightarrow> None))"

definition same_shape :: "world \<Rightarrow> world \<Rightarrow> bool" where
  "same_shape u w =
     (featureRegistry u = featureRegistry w \<and>
      (\<forall>a. symFeatureName (heap u a) = symFeatureName (heap w a)))"

section \<open>Example worlds\<close>

definition emptyCell :: cell where
  "emptyCell = \<lparr>symFeatureName = [], symFeatureEnabled = None\<rparr>"

definition world0 :: world where
  "world0 = \<lparr>heap = (\<lambda>_. emptyCell), nextRef = 0, featureRegistry = []\<rparr>"

definition no_env_load :: registerOptions where
  "no_env_load = \<lparr>override = False, parseEnv = ParseEnvBool False\<rparr>"

text \<open>\<^verbatim>\<open>two\<close> with its child \<^verbatim>\<open>two.one\<close>, registered, nothing set.\<close>

definition world_two :: world where
  "world_two =
     \<lparr>heap = (\<lambda>_. emptyCell)
         (0 := \<lparr>symFeatureName = ''two.one'', symFeatureEnabled = None\<rparr>,
          1 := \<lparr>symFeatureName = ''two'', symFeatureEnabled = None\<rparr>),
      nextRef = 2,
      featureRegistry =
        [(''two'', FeatureObject 1 ''two'' [(''One'', Some (FeatureObject 0 ''one'' []))]),
         (''two.one'', FeatureObject 0 ''one'' [])]\<rparr>"

text \<open>
  \<^verbatim>\<open>a\<close> disabled and \<^verbatim>\<open>a.b.c\<close> with no state, both registered; \<^verbatim>\<open>a.b\<close> is not
  registered.
\<close>

definition gap_a :: featureObject where
  "gap_a = FeatureObject 0 ''a'' []"

definition gap_c :: featureObject where
  "gap_c = FeatureObject 1 ''c'' []"

definition gap_world :: world where
  "gap_world =
     \<lparr>heap = (\<lambda>_. emptyCell)
         (0 := \<lparr>symFeatureName = ''a'', symFeatureEnabled = Some False\<rparr>,
          1 := \<lparr>symFeatureName = ''a.b.c'', symFeatureEnabled = None\<rparr>),
      nextRef = 2,
      featureRegistry = [(''a'', gap_a), (''a.b.c'', gap_c)]\<rparr>"

text \<open>
  \<^verbatim>\<open>const a = defineFeature("a"); const r = defineFeature("", { A: a });\<close>
  \<^verbatim>\<open>registerFeatures({ Root: r }, { parseEnv: false }); r.$disable();\<close>
\<close>

definition nameless_a :: featureObject where
  "nameless_a = FeatureObject 0 ''a'' []"

definition nameless_root :: featureObject where
  "nameless_root = FeatureObject 1 [] [(''A'', Some nameless_a)]"

definition nameless_world :: world where
  "nameless_world =
     (let (a, w1) = defineFeature ''a'' [] world0;
          (r, w2) = defineFeature [] [(''A'', Some a)] w1;
          w3 = world_left (registerFeatures [(''Root'', Some r)] no_env_load Map.empty w2)
      in disable r w3)"

text \<open>
  \<^verbatim>\<open>const a = defineFeature("x"); const b = defineFeature("x");\<close>
  \<^verbatim>\<open>registerFeatures({ A: a, B: b }, { parseEnv: false }); b.$disable();\<close>
\<close>

definition twin_first :: featureObject where
  "twin_first = FeatureObject 0 ''x'' []"

definition twin_second :: featureObject where
  "twin_second = FeatureObject 1 ''x'' []"

definition twin_world :: world where
  "twin_world =
     (let (a, w1) = defineFeature ''x'' [] world0;
          (b, w2) = defineFeature ''x'' [] w1;
          w3 = world_left
                 (registerFeatures [(''A'', Some a), (''B'', Some b)] no_env_load Map.empty w2)
      in disable b w3)"

text \<open>
  \<^verbatim>\<open>const c = defineFeature("c"); const a = defineFeature("a", { C: c });\<close> and then
  \<^verbatim>\<open>const b = defineFeature("b", { C: c });\<close>
\<close>

definition shared_c :: featureObject where
  "shared_c = FeatureObject 0 ''c'' []"

definition shared_a :: featureObject where
  "shared_a = FeatureObject 1 ''a'' [(''C'', Some shared_c)]"

definition shared_b :: featureObject where
  "shared_b = FeatureObject 2 ''b'' [(''C'', Some shared_c)]"

definition shared_world_a :: world where
  "shared_world_a =
     (let (c, w1) = defineFeature ''c'' [] world0;
          (a, w2) = defineFeature ''a'' [(''C'', Some c)] w1
      in w2)"

definition shared_world_b :: world where
  "shared_world_b = snd (defineFeature ''b'' [(''C'', Some shared_c)] shared_world_a)"

text \<open>
  \<^verbatim>\<open>defineFeature("two", { Two: defineFeature("two", { One: defineFeature("one"), Other: 1 }) })\<close>
\<close>

definition nested_leaf :: featureObject where
  "nested_leaf = FeatureObject 0 ''one'' []"

definition nested_mid :: featureObject where
  "nested_mid = FeatureObject 1 ''two'' [(''One'', Some nested_leaf), (''Other'', None)]"

definition nested_root :: featureObject where
  "nested_root = FeatureObject 2 ''two'' [(''Two'', Some nested_mid)]"

definition nested_before :: world where
  "nested_before =
     (let (l, w1) = defineFeature ''one'' [] world0;
          (m, w2) = defineFeature ''two'' [(''One'', Some l), (''Other'', None)] w1
      in w2)"

definition nested_after :: world where
  "nested_after = snd (defineFeature ''two'' [(''Two'', Some nested_mid)] nested_before)"







text \<open>
  \<^verbatim>\<open>const c = defineFeature("c"); const k = defineFeature("k", { C: c });\<close> and then
  \<^verbatim>\<open>const p = defineFeature("p", { K: k, $name: c });\<close>
\<close>

definition method_key_c :: featureObject where
  "method_key_c = FeatureObject 0 ''c'' []"

definition method_key_k :: featureObject where
  "method_key_k = FeatureObject 1 ''k'' [(''C'', Some method_key_c)]"

definition method_key_p :: featureObject where
  "method_key_p = FeatureObject 2 ''p'' [(''K'', Some method_key_k)]"

definition method_key_world :: world where
  "method_key_world =
     (let (c, w1) = defineFeature ''c'' [] world0;
          (k, w2) = defineFeature ''k'' [(''C'', Some c)] w1
      in w2)"

definition method_key_after :: world where
  "method_key_after =
     snd (defineFeature ''p'' [(''K'', Some method_key_k), (''$name'', Some method_key_c)]
            method_key_world)"



text \<open>
  \<^verbatim>\<open>a\<close> disabled, \<^verbatim>\<open>a.b\<close> enabled and \<^verbatim>\<open>a.b.c\<close> with no state, all registered.
\<close>

definition near_a :: featureObject where
  "near_a = FeatureObject 2 ''a'' [(''B'', Some (FeatureObject 1 ''b'' [(''C'', Some (FeatureObject 0 ''c'' []))]))]"

definition near_b :: featureObject where
  "near_b = FeatureObject 1 ''b'' [(''C'', Some (FeatureObject 0 ''c'' []))]"

definition near_c :: featureObject where
  "near_c = FeatureObject 0 ''c'' []"

definition near_world :: world where
  "near_world =
     \<lparr>heap = (\<lambda>_. emptyCell)
         (0 := \<lparr>symFeatureName = ''a.b.c'', symFeatureEnabled = None\<rparr>,
          1 := \<lparr>symFeatureName = ''a.b'', symFeatureEnabled = Some True\<rparr>,
          2 := \<lparr>symFeatureName = ''a'', symFeatureEnabled = Some False\<rparr>),
      nextRef = 3,
      featureRegistry = [(''a'', near_a), (''a.b'', near_b), (''a.b.c'', near_c)]\<rparr>"

section \<open>Strings\<close>

lemma split_dot_not_Nil: "split_dot s \<noteq> []"
  by (induction s) (auto split: list.splits)

lemma join_Cons_char: "join sep ((c # p) # ps) = c # join sep (p # ps)"
  by (cases ps) simp_all

lemma join_split_dot: "join ''.'' (split_dot s) = s"
proof (induction s)
  case Nil
  show ?case by simp
next
  case (Cons c cs)
  obtain p ps where sp: "split_dot cs = p # ps"
    using split_dot_not_Nil [of cs] by (cases "split_dot cs") auto
  show ?case
  proof (cases "c = CHR ''.''")
    case True
    then show ?thesis using Cons sp by simp
  next
    case False
    then show ?thesis using Cons sp by (simp add: join_Cons_char del: join.simps)
  qed
qed

lemma length_parents_of: "length (parents_of n) = length (split_dot n)"
  by (simp add: parents_of_def Let_def)

lemma parents_of_not_Nil: "parents_of n \<noteq> []"
  using split_dot_not_Nil [of n] length_parents_of [of n] by (metis length_0_conv)

lemma last_parents_of: "last (parents_of n) = n"
proof -
  have "length (split_dot n) > 0" using split_dot_not_Nil by simp
  then have "last (parents_of n) = join ''.'' (take (length (split_dot n)) (split_dot n))"
    by (simp add: parents_of_def Let_def last_map last_upt)
  then show ?thesis by (simp add: join_split_dot)
qed

lemma featureNames_empty: "featureNames [] = []"
  by (simp add: featureNames_def trim_def)

lemma env_features_unset: "env_features p Map.empty = []"
  by (cases p) simp_all

section \<open>Resolution: isFeatureEnabled\<close>

lemma pop_parents_transparent:
  "\<forall>p \<in> set ps. transparent w p \<Longrightarrow> pop_parents w ps = None"
  by (induction ps) (auto simp: transparent_def split: option.splits)

lemma pop_parents_skip:
  "\<forall>p \<in> set pre. transparent w p \<Longrightarrow> pop_parents w (pre @ ps) = pop_parents w ps"
  by (induction pre) (auto simp: transparent_def split: option.splits)

lemma pop_parents_hit:
  assumes "\<forall>p \<in> set pre. transparent w p" "p \<noteq> []"
    "map_of (featureRegistry w) p = Some g" "enabled_of w g = Some b"
  shows "pop_parents w (pre @ p # post) = Some b"
  using assms by (simp add: pop_parents_skip)

lemma isFeatureEnabled_nearest:
  assumes "enabled_of w f = None"
    and "i < length (parents_of (name_of w f))"
    and "parents_of (name_of w f) ! i \<noteq> []"
    and "map_of (featureRegistry w) (parents_of (name_of w f) ! i) = Some g"
    and "enabled_of w g = Some b"
    and "\<forall>j. i < j \<and> j < length (parents_of (name_of w f))
             \<longrightarrow> transparent w (parents_of (name_of w f) ! j)"
  shows "isFeatureEnabled w f = b"
proof -
  let ?ps = "parents_of (name_of w f)"
  have split: "?ps = take i ?ps @ ?ps ! i # drop (Suc i) ?ps"
    using assms(2) by (simp add: id_take_nth_drop)
  have "rev ?ps = rev (drop (Suc i) ?ps) @ ?ps ! i # rev (take i ?ps)"
    by (subst split) simp
  moreover have "\<forall>p \<in> set (rev (drop (Suc i) ?ps)). transparent w p"
  proof
    fix p assume "p \<in> set (rev (drop (Suc i) ?ps))"
    then obtain k where "k < length (drop (Suc i) ?ps)" "p = drop (Suc i) ?ps ! k"
      by (auto simp: in_set_conv_nth)
    then show "transparent w p" using assms(6) by simp
  qed
  ultimately have "pop_parents w (rev ?ps) = Some b"
    using assms(3,4,5) pop_parents_hit by metis
  then show ?thesis using assms(1) by (simp add: isFeatureEnabled_def)
qed

text \<open>
  The function reads the world as it is at the call: once an ancestor has been given a
  state, the next call for a feature without a state of its own answers with it.
\<close>

lemma isFeatureEnabled_after_set_enabled:
  assumes "enabled_of w f = None" and "ref g \<noteq> ref f"
    and "i < length (parents_of (name_of w f))"
    and "parents_of (name_of w f) ! i \<noteq> []"
    and "map_of (featureRegistry w) (parents_of (name_of w f) ! i) = Some g"
    and "\<forall>j. i < j \<and> j < length (parents_of (name_of w f))
             \<longrightarrow> transparent (set_enabled g (Some b) w) (parents_of (name_of w f) ! j)"
  shows "isFeatureEnabled (set_enabled g (Some b) w) f = b"
proof -
  let ?w = "set_enabled g (Some b) w"
  have n: "name_of ?w f = name_of w f" by (simp add: name_of_def set_enabled_def)
  have r: "featureRegistry ?w = featureRegistry w" by (simp add: set_enabled_def)
  have e: "enabled_of ?w f = None" "enabled_of ?w g = Some b"
    using assms(1,2) by (simp_all add: enabled_of_def set_enabled_def)
  from assms e show ?thesis
    by (intro isFeatureEnabled_nearest [of ?w f i g b]) (simp_all add: n r)
qed

lemma isFeatureEnabled_no_hit:
  assumes "enabled_of w f = None"
    and "\<forall>j. j < length (parents_of (name_of w f)) \<and> parents_of (name_of w f) ! j \<noteq> []
             \<longrightarrow> (\<forall>g. map_of (featureRegistry w) (parents_of (name_of w f) ! j) = Some g
                       \<longrightarrow> enabled_of w g = None)"
  shows "isFeatureEnabled w f"
proof -
  let ?ps = "parents_of (name_of w f)"
  have "\<forall>p \<in> set (rev ?ps). transparent w p"
  proof
    fix p assume "p \<in> set (rev ?ps)"
    then obtain j where "j < length ?ps" "p = ?ps ! j"
      by (auto simp: in_set_conv_nth)
    then show "transparent w p"
      using assms(2) by (auto simp: transparent_def split: option.splits)
  qed
  then have "pop_parents w (rev ?ps) = None" by (rule pop_parents_transparent)
  then show ?thesis using assms(1) by (simp add: isFeatureEnabled_def)
qed

text \<open>
  C1, as the code has it.  A feature with a state of its own answers with that state and
  the loop is not entered.  Otherwise the answer is the state of the feature registered
  under the longest prefix of the qualified name that is not the empty string, is a key
  of the registry and leads to a feature with a state; shorter prefixes are not looked
  at, longer ones are passed over.  When no prefix other than the empty string leads to
  a feature with a state, the answer is true, whatever is registered under the empty
  string: the loop never looks the empty string up.  The prefixes are those of
  \<open>parents_of\<close>, the last of which is the qualified name itself: the walk starts there,
  which matters when the registry holds another object under that name.
\<close>

theorem isFeatureEnabled_precedence:
  "(enabled_of w f = Some b \<longrightarrow> isFeatureEnabled w f = b) \<and>
   (enabled_of w f = None \<and> i < length (parents_of (name_of w f)) \<and>
    parents_of (name_of w f) ! i \<noteq> [] \<and>
    map_of (featureRegistry w) (parents_of (name_of w f) ! i) = Some g \<and>
    enabled_of w g = Some b \<and>
    (\<forall>j. i < j \<and> j < length (parents_of (name_of w f))
         \<longrightarrow> transparent w (parents_of (name_of w f) ! j))
    \<longrightarrow> isFeatureEnabled w f = b) \<and>
   (enabled_of w f = None \<and>
    (\<forall>j. j < length (parents_of (name_of w f)) \<and> parents_of (name_of w f) ! j \<noteq> []
         \<longrightarrow> (\<forall>g. map_of (featureRegistry w) (parents_of (name_of w f) ! j) = Some g
                   \<longrightarrow> enabled_of w g = None))
    \<longrightarrow> isFeatureEnabled w f = True) \<and>
   last (parents_of (name_of w f)) = name_of w f"
proof (intro conjI impI)
  assume "enabled_of w f = Some b"
  then show "isFeatureEnabled w f = b" by (simp add: isFeatureEnabled_def)
next
  assume "enabled_of w f = None \<and> i < length (parents_of (name_of w f)) \<and>
    parents_of (name_of w f) ! i \<noteq> [] \<and>
    map_of (featureRegistry w) (parents_of (name_of w f) ! i) = Some g \<and>
    enabled_of w g = Some b \<and>
    (\<forall>j. i < j \<and> j < length (parents_of (name_of w f))
         \<longrightarrow> transparent w (parents_of (name_of w f) ! j))"
  then show "isFeatureEnabled w f = b"
    by (intro isFeatureEnabled_nearest [of w f i g b]) simp_all
next
  assume "enabled_of w f = None \<and>
    (\<forall>j. j < length (parents_of (name_of w f)) \<and> parents_of (name_of w f) ! j \<noteq> []
         \<longrightarrow> (\<forall>g. map_of (featureRegistry w) (parents_of (name_of w f) ! j) = Some g
                   \<longrightarrow> enabled_of w g = None))"
  then have "isFeatureEnabled w f"
    by (intro isFeatureEnabled_no_hit) simp_all
  then show "isFeatureEnabled w f = True" by simp
next
  show "last (parents_of (name_of w f)) = name_of w f" by (rule last_parents_of)
qed

lemma nameless_world_eq:
  "nameless_world =
     \<lparr>heap = (\<lambda>_. emptyCell)
        (0 := \<lparr>symFeatureName = ''.a'', symFeatureEnabled = None\<rparr>,
         1 := \<lparr>symFeatureName = [], symFeatureEnabled = Some False\<rparr>),
      nextRef = 2,
      featureRegistry = [([], nameless_root), (''.a'', nameless_a)]\<rparr>"
  by (simp add: nameless_world_def defineFeature_def own_enumerable_def method_names_def
      world0_def registerFeatures_def no_env_load_def world_left_def disable_def
      set_enabled_def name_of_def nameless_root_def nameless_a_def fun_upd_twist)

theorem isFeatureEnabled_precedence_witness:
  "enabled_of gap_world gap_a = Some False \<and>
   isFeatureEnabled gap_world gap_a = False \<and>
   enabled_of gap_world gap_c = None \<and>
   parents_of (name_of gap_world gap_c) = [''a'', ''a.b'', ''a.b.c''] \<and>
   map_of (featureRegistry gap_world) ''a'' = Some gap_a \<and>
   map_of (featureRegistry gap_world) ''a.b'' = None \<and>
   isFeatureEnabled gap_world gap_c = False \<and>
   enabled_of nameless_world nameless_a = None \<and>
   parents_of (name_of nameless_world nameless_a) = [[], ''.a''] \<and>
   map_of (featureRegistry nameless_world) [] = Some nameless_root \<and>
   enabled_of nameless_world nameless_root = Some False \<and>
   map_of (featureRegistry nameless_world) ''.a'' = Some nameless_a \<and>
   isFeatureEnabled nameless_world nameless_a = True \<and>
   enabled_of near_world near_c = None \<and>
   enabled_of near_world near_a = Some False \<and>
   enabled_of near_world near_b = Some True \<and>
   map_of (featureRegistry near_world) ''a'' = Some near_a \<and>
   map_of (featureRegistry near_world) ''a.b'' = Some near_b \<and>
   isFeatureEnabled near_world near_c = True"
proof -
  have n: "name_of gap_world gap_c = ''a.b.c''"
    by (simp add: name_of_def gap_world_def gap_c_def)
  have ps: "parents_of ''a.b.c'' = [''a'', ''a.b'', ''a.b.c'']"
    by (simp add: parents_of_def)
  have e: "enabled_of gap_world gap_a = Some False" "enabled_of gap_world gap_c = None"
    by (simp_all add: enabled_of_def gap_world_def gap_a_def gap_c_def)
  have m: "map_of (featureRegistry gap_world) ''a'' = Some gap_a"
    "map_of (featureRegistry gap_world) ''a.b'' = None"
    "map_of (featureRegistry gap_world) ''a.b.c'' = Some gap_c"
    by (simp_all add: gap_world_def)
  have t: "\<forall>j. 0 < j \<and> j < length (parents_of (name_of gap_world gap_c))
             \<longrightarrow> transparent gap_world (parents_of (name_of gap_world gap_c) ! j)"
    using m e by (auto simp: n ps transparent_def less_Suc_eq numeral_3_eq_3)
  have gap: "isFeatureEnabled gap_world gap_a = False" "isFeatureEnabled gap_world gap_c = False"
    using isFeatureEnabled_precedence [of gap_world gap_a False 0 gap_a]
          isFeatureEnabled_precedence [of gap_world gap_c False 0 gap_a]
          e m t
    by (simp_all add: n ps)
  have nn: "name_of nameless_world nameless_a = ''.a''"
    by (simp add: nameless_world_eq name_of_def nameless_a_def)
  have nps: "parents_of ''.a'' = [[], ''.a'']"
    by (simp add: parents_of_def)
  have ne: "enabled_of nameless_world nameless_a = None"
    "enabled_of nameless_world nameless_root = Some False"
    by (simp_all add: nameless_world_eq enabled_of_def nameless_a_def nameless_root_def)
  have nm: "map_of (featureRegistry nameless_world) [] = Some nameless_root"
    "map_of (featureRegistry nameless_world) ''.a'' = Some nameless_a"
    by (simp_all add: nameless_world_eq)
  have nt: "\<forall>j. j < length (parents_of (name_of nameless_world nameless_a)) \<and>
                parents_of (name_of nameless_world nameless_a) ! j \<noteq> []
             \<longrightarrow> (\<forall>g. map_of (featureRegistry nameless_world)
                          (parents_of (name_of nameless_world nameless_a) ! j) = Some g
                       \<longrightarrow> enabled_of nameless_world g = None)"
    using nm ne by (auto simp: nn nps less_Suc_eq)
  have nameless: "isFeatureEnabled nameless_world nameless_a = True"
    using isFeatureEnabled_precedence [of nameless_world nameless_a False 0 nameless_root]
          ne(1) nt
    by blast
  have kn: "name_of near_world near_c = ''a.b.c''"
    by (simp add: name_of_def near_world_def near_c_def)
  have ke: "enabled_of near_world near_c = None" "enabled_of near_world near_a = Some False"
    "enabled_of near_world near_b = Some True"
    by (simp_all add: enabled_of_def near_world_def near_a_def near_b_def near_c_def)
  have km: "map_of (featureRegistry near_world) ''a'' = Some near_a"
    "map_of (featureRegistry near_world) ''a.b'' = Some near_b"
    "map_of (featureRegistry near_world) ''a.b.c'' = Some near_c"
    by (simp_all add: near_world_def)
  have kt: "\<forall>j. 1 < j \<and> j < length (parents_of (name_of near_world near_c))
             \<longrightarrow> transparent near_world (parents_of (name_of near_world near_c) ! j)"
    using km ke by (auto simp: kn ps transparent_def less_Suc_eq numeral_3_eq_3)
  have near: "isFeatureEnabled near_world near_c = True"
    using isFeatureEnabled_precedence [of near_world near_c True 1 near_b] ke km kt
    by (simp add: kn ps)
  show ?thesis using gap nameless near e m ne nm ke km by (simp add: n ps nn nps)
qed

text \<open>
  C1 as it stands fails where the nearest registered ancestor with a state is the empty
  name: \<^verbatim>\<open>.a\<close> has no state, its only ancestor prefix (the empty string) is
  registered and disabled, and \<^verbatim>\<open>isFeatureEnabled\<close> answers true.
\<close>

theorem isFeatureEnabled_nameless_parent:
  "enabled_of nameless_world nameless_a = None \<and>
   name_of nameless_world nameless_a = ''.a'' \<and>
   butlast (parents_of ''.a'') = [[]] \<and>
   map_of (featureRegistry nameless_world) [] = Some nameless_root \<and>
   enabled_of nameless_world nameless_root = Some False \<and>
   isFeatureEnabled nameless_world nameless_a = True"
  by (simp add: nameless_world_def defineFeature_def own_enumerable_def method_names_def world0_def registerFeatures_def
      no_env_load_def world_left_def disable_def set_enabled_def
      isFeatureEnabled_def enabled_of_def name_of_def
      parents_of_def nameless_a_def nameless_root_def)

text \<open>
  C2, as the code has it.  A feature with no state of its own is enabled when no
  registered ancestor prefix of its qualified name leads to a feature with a state and
  the registry entry of the qualified name itself, if there is one, has no state either
  (as when that entry is the feature).
\<close>

theorem isFeatureEnabled_default:
  assumes "enabled_of w f = None"
    and "\<forall>p \<in> set (butlast (parents_of (name_of w f))).
           \<forall>g. map_of (featureRegistry w) p = Some g \<longrightarrow> enabled_of w g = None"
    and "\<forall>g. map_of (featureRegistry w) (name_of w f) = Some g \<longrightarrow> enabled_of w g = None"
  shows "isFeatureEnabled w f"
proof -
  let ?ps = "parents_of (name_of w f)"
  have "?ps = butlast ?ps @ [name_of w f]"
    using parents_of_not_Nil [of "name_of w f"] last_parents_of [of "name_of w f"]
    by (metis append_butlast_last_id)
  then have "set (rev ?ps) = insert (name_of w f) (set (butlast ?ps))"
    by (metis Un_insert_right append_Nil2 list.simps(15) set_append set_rev)
  then have "\<forall>p \<in> set (rev ?ps). transparent w p"
    using assms(2,3) by (auto simp: transparent_def split: option.splits)
  then have "pop_parents w (rev ?ps) = None" by (rule pop_parents_transparent)
  then show ?thesis using assms(1) by (simp add: isFeatureEnabled_def)
qed

theorem isFeatureEnabled_default_witness:
  "enabled_of world_two (FeatureObject 0 ''one'' []) = None \<and>
   name_of world_two (FeatureObject 0 ''one'' []) = ''two.one'' \<and>
   butlast (parents_of ''two.one'') = [''two''] \<and>
   isFeatureEnabled world_two (FeatureObject 0 ''one'' [])"
proof -
  have n: "name_of world_two (FeatureObject 0 ''one'' []) = ''two.one''"
    by (simp add: name_of_def world_two_def)
  have ps: "butlast (parents_of ''two.one'') = [''two'']"
    by (simp add: parents_of_def)
  have e: "enabled_of world_two (FeatureObject 0 ''one'' []) = None"
    by (simp add: enabled_of_def world_two_def)
  have a: "\<forall>p \<in> set (butlast (parents_of (name_of world_two (FeatureObject 0 ''one'' [])))).
             \<forall>g. map_of (featureRegistry world_two) p = Some g \<longrightarrow> enabled_of world_two g = None"
    by (simp add: n ps) (simp add: world_two_def enabled_of_def)
  have b: "\<forall>g. map_of (featureRegistry world_two) (name_of world_two (FeatureObject 0 ''one'' []))
                 = Some g \<longrightarrow> enabled_of world_two g = None"
    by (simp add: n) (simp add: world_two_def enabled_of_def)
  from isFeatureEnabled_default [OF e a b] n ps e show ?thesis by simp
qed

text \<open>
  C2 as it stands fails for a feature whose qualified name is registered to another
  object: the first \<^verbatim>\<open>x\<close> has no state and no ancestor, the second \<^verbatim>\<open>x\<close>
  replaced it in the registry and is disabled, and the first one is reported disabled.
\<close>

theorem isFeatureEnabled_twin:
  "enabled_of twin_world twin_first = None \<and>
   butlast (parents_of (name_of twin_world twin_first)) = [] \<and>
   isFeatureEnabled twin_world twin_first = False"
  by (simp add: twin_world_def defineFeature_def own_enumerable_def method_names_def world0_def registerFeatures_def
      no_env_load_def world_left_def disable_def set_enabled_def
      isFeatureEnabled_def enabled_of_def name_of_def
      parents_of_def twin_first_def twin_second_def)

section \<open>getFeature\<close>

text \<open>
  C8.  \<^verbatim>\<open>getFeature\<close> is a total function of the name and the registry (it has no
  throwing branch).  For a name \<^verbatim>\<open>-rest\<close>: if \<^verbatim>\<open>rest\<close> is a key, the result is the
  disabled marker carrying the qualified name of the feature found, not the feature;
  if it is not, the result is \<^verbatim>\<open>null\<close>.  For a name that does not begin with \<^verbatim>\<open>-\<close>
  the result is the registered feature, or \<^verbatim>\<open>null\<close>.
\<close>

theorem getFeature_total:
  "(map_of (featureRegistry w) rest = Some f \<longrightarrow>
      getFeature (CHR ''-'' # rest) w = Some (DisabledMarker (name_of w f)) \<and>
      getFeature (CHR ''-'' # rest) w \<noteq> Some (Feature f)) \<and>
   (map_of (featureRegistry w) rest = None \<longrightarrow> getFeature (CHR ''-'' # rest) w = None) \<and>
   (\<not> startsWith_dash name \<longrightarrow>
      getFeature name w = (case map_of (featureRegistry w) name of
                             Some f \<Rightarrow> Some (Feature f) | None \<Rightarrow> None))"
  by (auto simp: getFeature_def startsWith_dash_def slice1_def asDisabled_def
      split: option.splits)

theorem getFeature_total_witness:
  "getFeature ''-two.one'' world_two = Some (DisabledMarker ''two.one'') \<and>
   getFeature ''-three'' world_two = None \<and>
   getFeature ''two'' world_two
     = Some (Feature (FeatureObject 1 ''two'' [(''One'', Some (FeatureObject 0 ''one'' []))])) \<and>
   getFeature ''three'' world_two = None"
proof -
  have a: "map_of (featureRegistry world_two) ''two.one'' = Some (FeatureObject 0 ''one'' [])"
    by (simp add: world_two_def)
  have b: "map_of (featureRegistry world_two) ''three'' = None"
    by (simp add: world_two_def)
  have c: "\<not> startsWith_dash ''two''" "\<not> startsWith_dash ''three''"
    by (simp_all add: startsWith_dash_def)
  have n: "name_of world_two (FeatureObject 0 ''one'' []) = ''two.one''"
    by (simp add: name_of_def world_two_def)
  from getFeature_total [of world_two "''two.one''" "FeatureObject 0 ''one'' []" "''two''"]
       getFeature_total [of world_two "''three''" "FeatureObject 0 ''one'' []" "''three''"]
       a b c n
  show ?thesis by (simp add: world_two_def)
qed

section \<open>loadFeatures\<close>

lemma featureRegistry_set_enabled: "featureRegistry (set_enabled f v w) = featureRegistry w"
  by (simp add: set_enabled_def)

lemma featureRegistry_apply_features:
  "featureRegistry (apply_features ds w) = featureRegistry w"
  by (induction ds w rule: apply_features.induct)
     (simp_all add: featureRegistry_set_enabled split: option.splits)

lemma featureRegistry_delete_enabled:
  "featureRegistry (delete_enabled fs w) = featureRegistry w"
  by (induction fs arbitrary: w) (simp_all add: featureRegistry_set_enabled)

lemma apply_features_append:
  "apply_features (xs @ ys) w = apply_features ys (apply_features xs w)"
  by (induction xs w rule: apply_features.induct) (simp_all split: option.splits)

lemma nextRef_set_enabled: "nextRef (set_enabled f v w) = nextRef w"
  by (simp add: set_enabled_def)

lemma nextRef_apply_features: "nextRef (apply_features ds w) = nextRef w"
  by (induction ds w rule: apply_features.induct)
     (simp_all add: nextRef_set_enabled split: option.splits)

lemma heap_apply_features:
  "heap (apply_features ds w) a =
     (case assigned (featureRegistry w) ds a of
        Some b \<Rightarrow> (heap w a)\<lparr>symFeatureEnabled := Some b\<rparr>
      | None \<Rightarrow> heap w a)"
proof (induction ds w rule: apply_features.induct)
  case (1 w)
  show ?case by simp
next
  case (2 rest w)
  then show ?case by (simp split: option.splits)
next
  case (3 n rest w)
  show ?case
  proof (cases "map_of (featureRegistry w) n")
    case None
    then show ?thesis using 3 by (simp split: option.splits)
  next
    case (Some g)
    then show ?thesis using 3(2) [OF Some]
      by (simp add: featureRegistry_set_enabled) (simp add: set_enabled_def split: option.splits)
  qed
next
  case (4 feature rest w)
  then show ?case
    by (simp add: featureRegistry_set_enabled) (simp add: set_enabled_def split: option.splits)
qed

lemma nextRef_delete_enabled: "nextRef (delete_enabled fs w) = nextRef w"
  by (induction fs arbitrary: w) (simp_all add: nextRef_set_enabled)

lemma heap_delete_enabled:
  "heap (delete_enabled fs w) a =
     (if a \<in> ref ` set fs then (heap w a)\<lparr>symFeatureEnabled := None\<rparr> else heap w a)"
  by (induction fs arbitrary: w) (auto simp: set_enabled_def)

lemma heap_loadFeatures:
  "heap (loadFeatures ds ov w) a =
     (case assigned (featureRegistry w) ds a of
        Some b \<Rightarrow> (heap w a)\<lparr>symFeatureEnabled := Some b\<rparr>
      | None \<Rightarrow>
          if ov \<and> a \<in> ref ` snd ` set (featureRegistry w)
          then (heap w a)\<lparr>symFeatureEnabled := None\<rparr> else heap w a)"
  by (simp add: loadFeatures_def heap_apply_features featureRegistry_delete_enabled
      heap_delete_enabled split: option.splits)

text \<open>
  C10.  An element of the array that is not a feature object, or a disabled marker whose
  name is not a key of the registry, changes nothing: \<^verbatim>\<open>loadFeatures\<close> with such an
  element anywhere in the array leaves the world that it leaves without the element, and
  on the element alone it leaves the world as it was.  The other elements are applied:
  the registry and the names stay as they are, and the state of every object is the value
  of the last of the other elements that assigns to it (a feature object assigns true to
  itself, a marker assigns false to the feature registered under its name,
  \<open>assigned\<close>); an object to which none assigns keeps its state, or has none after the
  call if \<open>override\<close> is set and the object is registered.
\<close>

theorem loadFeatures_skips:
  assumes "d = NotFeature \<or> (\<exists>n. d = DisabledMarker n \<and> map_of (featureRegistry w) n = None)"
  shows "loadFeatures (xs @ d # ys) ov w = loadFeatures (xs @ ys) ov w \<and>
         loadFeatures [d] False w = w \<and>
         featureRegistry (loadFeatures (xs @ d # ys) ov w) = featureRegistry w \<and>
         nextRef (loadFeatures (xs @ d # ys) ov w) = nextRef w \<and>
         (\<forall>a. symFeatureName (heap (loadFeatures (xs @ d # ys) ov w) a)
                = symFeatureName (heap w a)) \<and>
         (\<forall>a. symFeatureEnabled (heap (loadFeatures (xs @ d # ys) ov w) a) =
                (case assigned (featureRegistry w) (xs @ ys) a of
                   Some b \<Rightarrow> Some b
                 | None \<Rightarrow>
                     if ov \<and> a \<in> ref ` snd ` set (featureRegistry w) then None
                     else symFeatureEnabled (heap w a)))"
proof -
  have skip: "apply_features (d # ys) u = apply_features ys u"
    if "featureRegistry u = featureRegistry w" for u
    using assms that by auto
  have "featureRegistry
          (apply_features xs (if ov then delete_enabled (map snd (featureRegistry w)) w else w))
        = featureRegistry w"
    by (simp add: featureRegistry_apply_features featureRegistry_delete_enabled)
  then have eq: "loadFeatures (xs @ d # ys) ov w = loadFeatures (xs @ ys) ov w"
    unfolding loadFeatures_def apply_features_append by (rule skip)
  have alone: "loadFeatures [d] False w = w"
    using assms by (auto simp: loadFeatures_def)
  have reg: "featureRegistry (loadFeatures (xs @ ys) ov w) = featureRegistry w"
    by (simp add: loadFeatures_def featureRegistry_apply_features featureRegistry_delete_enabled)
  have nxt: "nextRef (loadFeatures (xs @ ys) ov w) = nextRef w"
    by (simp add: loadFeatures_def nextRef_apply_features nextRef_delete_enabled)
  have names: "symFeatureName (heap (loadFeatures (xs @ ys) ov w) a) = symFeatureName (heap w a)"
    for a
    by (simp add: heap_loadFeatures split: option.splits)
  have states: "symFeatureEnabled (heap (loadFeatures (xs @ ys) ov w) a) =
                (case assigned (featureRegistry w) (xs @ ys) a of
                   Some b \<Rightarrow> Some b
                 | None \<Rightarrow>
                     if ov \<and> a \<in> ref ` snd ` set (featureRegistry w) then None
                     else symFeatureEnabled (heap w a))"
    for a
    by (auto simp: heap_loadFeatures split: option.splits)
  show ?thesis
    unfolding eq using alone reg nxt names states by blast
qed

theorem loadFeatures_skips_witness:
  "map_of (featureRegistry world_two) ''three'' = None \<and>
   loadFeatures ([Feature (FeatureObject 0 ''one'' [])] @ DisabledMarker ''three''
                   # [DisabledMarker ''two'']) False world_two
     = loadFeatures ([Feature (FeatureObject 0 ''one'' [])] @ [DisabledMarker ''two''])
         False world_two \<and>
   loadFeatures [DisabledMarker ''three''] False world_two = world_two \<and>
   symFeatureEnabled
     (heap (loadFeatures ([Feature (FeatureObject 0 ''one'' [])] @ DisabledMarker ''three''
                            # [DisabledMarker ''two'']) False world_two) 0) = Some True \<and>
   symFeatureEnabled
     (heap (loadFeatures ([Feature (FeatureObject 0 ''one'' [])] @ DisabledMarker ''three''
                            # [DisabledMarker ''two'']) False world_two) 1) = Some False \<and>
   symFeatureEnabled (heap gap_world 0) = Some False \<and>
   symFeatureEnabled (heap (loadFeatures ([] @ NotFeature # [Feature gap_c]) True gap_world) 0)
     = None \<and>
   symFeatureEnabled (heap (loadFeatures ([] @ NotFeature # [Feature gap_c]) True gap_world) 1)
     = Some True"
proof -
  have h: "map_of (featureRegistry world_two) ''three'' = None"
    by (simp add: world_two_def)
  have d: "DisabledMarker ''three'' = NotFeature \<or>
        (\<exists>n. DisabledMarker ''three'' = DisabledMarker n
              \<and> map_of (featureRegistry world_two) n = None)"
    using h by simp
  have a0: "assigned (featureRegistry world_two)
              ([Feature (FeatureObject 0 ''one'' [])] @ [DisabledMarker ''two'']) 0 = Some True"
    and a1: "assigned (featureRegistry world_two)
              ([Feature (FeatureObject 0 ''one'' [])] @ [DisabledMarker ''two'']) 1 = Some False"
    by (simp_all add: world_two_def)
  have g0: "assigned (featureRegistry gap_world) ([] @ [Feature gap_c]) 0 = None"
    and g1: "assigned (featureRegistry gap_world) ([] @ [Feature gap_c]) 1 = Some True"
    and gr: "0 \<in> ref ` snd ` set (featureRegistry gap_world)"
    and ge: "symFeatureEnabled (heap gap_world 0) = Some False"
    by (simp_all add: gap_world_def gap_a_def gap_c_def)
  let ?L = "loadFeatures ([Feature (FeatureObject 0 ''one'' [])] @ DisabledMarker ''three''
                            # [DisabledMarker ''two'']) False world_two"
  let ?G = "loadFeatures ([] @ NotFeature # [Feature gap_c]) True gap_world"
  note two = loadFeatures_skips [OF d, of "[Feature (FeatureObject 0 ''one'' [])]"
                                  "[DisabledMarker ''two'']" False]
  note gap = loadFeatures_skips [of NotFeature gap_world "[]" "[Feature gap_c]" True]
  have st: "symFeatureEnabled (heap ?L a) =
              (case assigned (featureRegistry world_two)
                      ([Feature (FeatureObject 0 ''one'' [])] @ [DisabledMarker ''two'']) a of
                 Some b \<Rightarrow> Some b
               | None \<Rightarrow>
                   if False \<and> a \<in> ref ` snd ` set (featureRegistry world_two) then None
                   else symFeatureEnabled (heap world_two a))" for a
    using two by blast
  have sg: "symFeatureEnabled (heap ?G a) =
              (case assigned (featureRegistry gap_world) ([] @ [Feature gap_c]) a of
                 Some b \<Rightarrow> Some b
               | None \<Rightarrow>
                   if True \<and> a \<in> ref ` snd ` set (featureRegistry gap_world) then None
                   else symFeatureEnabled (heap gap_world a))" for a
    using gap by blast
  have t0: "symFeatureEnabled (heap ?L 0) = Some True"
    unfolding st a0 by simp
  have t1: "symFeatureEnabled (heap ?L 1) = Some False"
    unfolding st a1 by simp
  have c0: "symFeatureEnabled (heap ?G 0) = None"
    unfolding sg g0 using gr by simp
  have c1: "symFeatureEnabled (heap ?G 1) = Some True"
    unfolding sg g1 by simp
  from two have "?L = loadFeatures ([Feature (FeatureObject 0 ''one'' [])]
                                      @ [DisabledMarker ''two'']) False world_two"
    and "loadFeatures [DisabledMarker ''three''] False world_two = world_two"
    by blast+
  then show ?thesis using h t0 t1 c0 c1 ge by blast
qed

section \<open>loadFeaturesFromString\<close>

text \<open>
  C9.  On the empty string \<^verbatim>\<open>loadFeaturesFromString\<close> returns and leaves the world as it
  was: the registry and every feature's state.  The empty string is also what
  \<^verbatim>\<open>registerFeatures\<close> passes when the environment has no value for the variable.
\<close>

theorem loadFeaturesFromString_empty:
  "loadFeaturesFromString [] w = Inr w \<and>
   loadFeaturesFromString (env_features p Map.empty) w = Inr w"
  by (simp add: env_features_unset loadFeaturesFromString_def featureNames_empty
      loadFeatures_def)

lemma name_of_set_enabled: "name_of (set_enabled f v w) g = name_of w g"
  by (simp add: name_of_def set_enabled_def)

lemma disable_refs_empty: "disable_refs {} w = w"
  by (simp add: disable_refs_def)

lemma disable_refs_set_enabled:
  "disable_refs S (set_enabled g (Some False) w) = disable_refs (insert (ref g) S) w"
  by (auto simp: disable_refs_def set_enabled_def fun_eq_iff)

lemma apply_markers:
  "\<forall>n \<in> set ns. map_of (featureRegistry w) n \<noteq> None \<Longrightarrow>
   apply_features (map DisabledMarker ns) w
     = disable_refs (set (map (\<lambda>n. ref (the (map_of (featureRegistry w) n))) ns)) w"
proof (induction ns arbitrary: w)
  case Nil
  show ?case by (simp add: disable_refs_empty)
next
  case (Cons n ns)
  then obtain g where g: "map_of (featureRegistry w) n = Some g" by auto
  let ?w = "set_enabled g (Some False) w"
  have reg: "featureRegistry ?w = featureRegistry w"
    by (rule featureRegistry_set_enabled)
  have "apply_features (map DisabledMarker (n # ns)) w
          = apply_features (map DisabledMarker ns) ?w"
    using g by simp
  also have "\<dots> =
      disable_refs (set (map (\<lambda>n. ref (the (map_of (featureRegistry w) n))) ns)) ?w"
    using Cons.IH [of ?w] Cons.prems by (simp add: reg)
  also have "\<dots> =
      disable_refs (set (map (\<lambda>n. ref (the (map_of (featureRegistry w) n))) (n # ns))) w"
    using g by (simp add: disable_refs_set_enabled)
  finally show ?case .
qed

lemma wildcard_pass:
  assumes "roots_found w"
  shows "loadFeatures (topLevelDisabled w) False w = disable_refs (registered_roots w) w"
proof -
  let ?roots = "filter (\<lambda>f. \<not> includes_dot (name_of w f)) (map snd (featureRegistry w))"
  let ?target = "\<lambda>n. ref (the (map_of (featureRegistry w) n))"
  have found: "map_option ref (map_of (featureRegistry w) (name_of w f)) = Some (ref f)"
    if "f \<in> set ?roots" for f
    using assms that by (auto simp: roots_found_def list_all_iff)
  have top: "topLevelDisabled w = map DisabledMarker (map (name_of w) ?roots)"
    by (simp add: topLevelDisabled_def asDisabled_def comp_def)
  have "\<forall>n \<in> set (map (name_of w) ?roots). map_of (featureRegistry w) n \<noteq> None"
    using found by fastforce
  then have "apply_features (topLevelDisabled w) w
      = disable_refs (set (map ?target (map (name_of w) ?roots))) w"
    unfolding top by (rule apply_markers)
  moreover have "map ?target (map (name_of w) ?roots) = map ref ?roots"
  proof (rule nth_equalityI)
    show "length (map ?target (map (name_of w) ?roots)) = length (map ref ?roots)"
      by simp
  next
    fix i assume "i < length (map ?target (map (name_of w) ?roots))"
    then have i: "i < length ?roots" by simp
    then have "?roots ! i \<in> set ?roots" by (rule nth_mem)
    from found [OF this] i
    show "map ?target (map (name_of w) ?roots) ! i = map ref ?roots ! i" by auto
  qed
  ultimately show ?thesis
    by (simp add: loadFeatures_def registered_roots_def)
qed

text \<open>
  C3.  When \<^verbatim>\<open>-*\<close> is one of the tokens, wherever it stands, \<^verbatim>\<open>loadFeaturesFromString\<close>
  is the pass over the named tokens (their lookup, then \<^verbatim>\<open>loadFeatures\<close>) run from
  the world in which exactly the registered features whose qualified name has no dot
  have been disabled and nothing else has changed; an error of the lookup leaves that
  world.  The registry is one in which each such feature is found under its name
  (\<open>roots_found\<close>), as in every world that the module builds (\<open>registry_ok\<close>).
\<close>

theorem loadFeaturesFromString_wildcard_first:
  assumes "''-*'' \<in> set (featureNames text)" and "roots_found w"
  shows "loadFeaturesFromString text w =
           (case featuresToEnable (featureNames text) (disable_refs (registered_roots w) w) of
              Inl e \<Rightarrow> Inl (e, disable_refs (registered_roots w) w)
            | Inr found \<Rightarrow> Inr (loadFeatures found False (disable_refs (registered_roots w) w)))"
  using assms(1) wildcard_pass [OF assms(2)]
  by (simp add: loadFeaturesFromString_def Let_def split: sum.splits)

theorem loadFeaturesFromString_wildcard_first_witness:
  "''-*'' \<in> set (featureNames ''two.one,-*'') \<and> roots_found world_two \<and>
   registered_roots world_two = {1} \<and>
   loadFeaturesFromString ''two.one,-*'' world_two =
     Inr (world_two\<lparr>heap := (heap world_two)
            (1 := \<lparr>symFeatureName = ''two'', symFeatureEnabled = Some False\<rparr>,
             0 := \<lparr>symFeatureName = ''two.one'', symFeatureEnabled = Some True\<rparr>)\<rparr>)"
proof -
  let ?w1 = "disable_refs (registered_roots world_two) world_two"
  have n: "featureNames ''two.one,-*'' = [''two.one'', ''-*'']"
    by (simp add: featureNames_def trim_def isSeparator_def isWhiteSpace_def)
  have a: "''-*'' \<in> set (featureNames ''two.one,-*'')" by (simp add: n)
  have rf: "roots_found world_two"
    by (simp add: roots_found_def world_two_def name_of_def includes_dot_def)
  have rr: "registered_roots world_two = {1}"
    by (simp add: registered_roots_def world_two_def name_of_def includes_dot_def)
  have d: "?w1 = world_two\<lparr>heap := (heap world_two)
            (1 := \<lparr>symFeatureName = ''two'', symFeatureEnabled = Some False\<rparr>)\<rparr>"
    unfolding rr by (auto simp: disable_refs_def world_two_def fun_eq_iff)
  have f: "featuresToEnable [''two.one'', ''-*''] ?w1 = Inr [Feature (FeatureObject 0 ''one'' [])]"
    by (simp add: d) (simp add: world_two_def getFeature_def startsWith_dash_def)
  have l: "loadFeatures [Feature (FeatureObject 0 ''one'' [])] False ?w1
        = world_two\<lparr>heap := (heap world_two)
            (1 := \<lparr>symFeatureName = ''two'', symFeatureEnabled = Some False\<rparr>,
             0 := \<lparr>symFeatureName = ''two.one'', symFeatureEnabled = Some True\<rparr>)\<rparr>"
    by (simp add: d) (simp add: world_two_def loadFeatures_def set_enabled_def)
  have "loadFeaturesFromString ''two.one,-*'' world_two =
          (case featuresToEnable (featureNames ''two.one,-*'') ?w1 of
             Inl e \<Rightarrow> Inl (e, ?w1)
           | Inr found \<Rightarrow> Inr (loadFeatures found False ?w1))"
    by (rule loadFeaturesFromString_wildcard_first [OF a rf])
  also have "\<dots> = Inr (loadFeatures [Feature (FeatureObject 0 ''one'' [])] False ?w1)"
    unfolding n f by simp
  finally show ?thesis using a rf rr l by simp
qed

lemma getFeature_None:
  "getFeature t w = None \<longleftrightarrow> map_of (featureRegistry w) (flag_named t) = None"
  by (simp add: getFeature_def flag_named_def split: option.splits)

lemma featuresToEnable_unknown:
  assumes "find (unknown_token w) names = Some u"
  shows "featuresToEnable names w = Inl (not_found u w)"
  using assms
proof (induction names)
  case Nil
  then show ?case by simp
next
  case (Cons n names)
  show ?case
  proof (cases "unknown_token w n")
    case True
    then show ?thesis using Cons.prems
      by (simp add: unknown_token_def getFeature_None [symmetric])
  next
    case False
    then have "find (unknown_token w) names = Some u" using Cons.prems by simp
    then have "featuresToEnable names w = Inl (not_found u w)" by (rule Cons.IH)
    then show ?thesis using False
      by (auto simp: unknown_token_def getFeature_None [symmetric] split: option.splits)
  qed
qed

text \<open>
  C4.  When some token other than \<^verbatim>\<open>*\<close> and \<^verbatim>\<open>-*\<close> names a flag that is not a key of
  the registry, \<^verbatim>\<open>loadFeaturesFromString\<close> throws.  The message names the first such
  token \<open>u\<close> of the input and lists the keys of the registry in order.  The world left
  behind is the one after the \<^verbatim>\<open>-*\<close> pass alone if \<^verbatim>\<open>-*\<close> is a token, and the world
  before the call otherwise: no named token has been applied, those before \<open>u\<close> included.
\<close>

theorem loadFeaturesFromString_unknown:
  assumes "t \<in> set (featureNames text)" and "t \<noteq> ''*''" and "t \<noteq> ''-*''"
    and "map_of (featureRegistry w) (flag_named t) = None"
  shows "\<exists>u. find (unknown_token w) (featureNames text) = Some u \<and>
           loadFeaturesFromString text w =
             Inl (Error (''Feature '' @ u @ '' not found. Available features: ''
                         @ join '', '' (map fst (featureRegistry w))),
                  if ''-*'' \<in> set (featureNames text)
                  then loadFeatures (topLevelDisabled w) False w else w)"
proof -
  let ?w1 = "if ''-*'' \<in> set (featureNames text)
             then loadFeatures (topLevelDisabled w) False w else w"
  have reg: "featureRegistry ?w1 = featureRegistry w"
    by (simp add: loadFeatures_def featureRegistry_apply_features)
  have "unknown_token w t" using assms by (simp add: unknown_token_def)
  then obtain u where u: "find (unknown_token w) (featureNames text) = Some u"
    using assms(1)
    by (cases "find (unknown_token w) (featureNames text)") (auto simp: find_None_iff)
  have "unknown_token ?w1 = unknown_token w"
    by (simp add: fun_eq_iff unknown_token_def reg)
  then have "featuresToEnable (featureNames text) ?w1 = Inl (not_found u ?w1)"
    using u featuresToEnable_unknown [of ?w1 "featureNames text" u] by simp
  moreover have "not_found u ?w1 = not_found u w"
    by (simp add: not_found_def reg)
  ultimately have "loadFeaturesFromString text w = Inl (not_found u w, ?w1)"
    by (simp add: loadFeaturesFromString_def Let_def)
  then show ?thesis using u by (simp add: not_found_def)
qed

theorem loadFeaturesFromString_unknown_witness:
  "loadFeaturesFromString ''two.one -*,three'' world_two =
     Inl (Error ''Feature three not found. Available features: two, two.one'',
          world_two\<lparr>heap := (heap world_two)
            (1 := \<lparr>symFeatureName = ''two'', symFeatureEnabled = Some False\<rparr>)\<rparr>)"
proof -
  have n: "featureNames ''two.one -*,three'' = [''two.one'', ''-*'', ''three'']"
    by (simp add: featureNames_def trim_def isSeparator_def isWhiteSpace_def)
  have a: "''three'' \<in> set (featureNames ''two.one -*,three'')" by (simp add: n)
  have b: "map_of (featureRegistry world_two) (flag_named ''three'') = None"
    by (simp add: flag_named_def startsWith_dash_def world_two_def)
  have u: "find (unknown_token world_two) [''two.one'', ''-*'', ''three''] = Some ''three''"
    by (simp add: unknown_token_def flag_named_def startsWith_dash_def world_two_def)
  have w: "loadFeatures (topLevelDisabled world_two) False world_two =
           world_two\<lparr>heap := (heap world_two)
             (1 := \<lparr>symFeatureName = ''two'', symFeatureEnabled = Some False\<rparr>)\<rparr>"
    by (simp add: topLevelDisabled_def loadFeatures_def world_two_def name_of_def
        includes_dot_def asDisabled_def set_enabled_def)
  from loadFeaturesFromString_unknown [OF a _ _ b] u w
  show ?thesis by (simp add: n) (simp add: world_two_def)
qed

section \<open>The Tree Builder: defineFeature\<close>

lemma prefixFeatureName_frame:
  "a \<notin> set (refs_of subs) \<Longrightarrow> prefixFeatureName p subs h a = h a"
  by (induction p subs h rule: prefixFeatureName.induct) (simp_all add: Let_def)

lemma well_named_cong:
  "\<forall>a \<in> set (refs_of subs). h a = h' a \<Longrightarrow> well_named h p subs = well_named h' p subs"
  by (induction h p subs rule: well_named.induct) simp_all

lemma prefixFeatureName_well_named:
  "distinct (refs_of subs) \<Longrightarrow> well_named (prefixFeatureName p subs h) p subs"
proof (induction p subs h rule: prefixFeatureName.induct)
  case (1 feature h)
  show ?case by simp
next
  case (2 feature subfeatureKey rest h)
  then show ?case by simp
next
  case (3 feature subfeatureKey a leaf subs rest h)
  let ?p = "feature @ ''.'' @ leaf"
  let ?h1 = "h(a := (h a)\<lparr>symFeatureName := ?p\<rparr>)"
  let ?h2 = "prefixFeatureName ?p subs ?h1"
  let ?h3 = "prefixFeatureName feature rest ?h2"
  from "3.prems" have d: "a \<notin> set (refs_of subs)" "a \<notin> set (refs_of rest)"
    "distinct (refs_of subs)" "distinct (refs_of rest)"
    "set (refs_of subs) \<inter> set (refs_of rest) = {}"
    by auto
  have a: "?h3 a = ?h1 a"
    using d(1,2) by (simp add: prefixFeatureName_frame)
  have "well_named ?h2 ?p subs"
    by (rule "3.IH"(1) [OF refl refl d(3)])
  moreover have "\<forall>x \<in> set (refs_of subs). ?h3 x = ?h2 x"
  proof
    fix x assume "x \<in> set (refs_of subs)"
    with d(5) have "x \<notin> set (refs_of rest)" by auto
    then show "?h3 x = ?h2 x" by (rule prefixFeatureName_frame)
  qed
  ultimately have s: "well_named ?h3 ?p subs"
    using well_named_cong by blast
  have r: "well_named ?h3 feature rest"
    by (rule "3.IH"(2) [OF refl refl refl d(4)])
  show ?case using a s r by (simp add: Let_def)
qed

lemma well_named_filter: "well_named h p subs \<Longrightarrow> well_named h p (filter P subs)"
  by (induction h p subs rule: well_named.induct) auto

text \<open>
  C6, as the code has it.  When no object occurs at two positions of the declaration
  (the new root and the record of subfeatures that is passed, whatever its keys),
  the root's qualified name is its leaf name and every descendant of the returned root
  has its parent's qualified name, a dot and its own leaf name as qualified name.  The
  children of the returned root are the subfeatures under keys other than the names of
  the six methods.  The subfeatures are renamed in place, not copied.
\<close>

theorem defineFeature_names:
  assumes "defineFeature feature subfeatures w = (f, w')"
    and "distinct (ref f # refs_of subfeatures)"
  shows "name_of w' f = feature \<and> symFeatureLeafName f = feature \<and>
         properties f = filter (\<lambda>(key, v). key \<notin> set method_names) subfeatures \<and>
         well_named (heap w') (name_of w' f) subfeatures \<and>
         well_named (heap w') (name_of w' f) (properties f)"
proof -
  let ?a = "nextRef w"
  let ?h0 = "(heap w)(?a := \<lparr>symFeatureName = feature, symFeatureEnabled = None\<rparr>)"
  have f: "f = FeatureObject ?a feature (own_enumerable subfeatures)"
    and w': "heap w' = prefixFeatureName feature subfeatures ?h0"
    using assms(1) by (auto simp: defineFeature_def Let_def)
  from assms(2) have d: "?a \<notin> set (refs_of subfeatures)" "distinct (refs_of subfeatures)"
    by (simp_all add: f)
  have n: "name_of w' f = feature"
    using d(1) by (simp add: name_of_def f w' prefixFeatureName_frame)
  have wn: "well_named (heap w') feature subfeatures"
    unfolding w' using d(2) by (rule prefixFeatureName_well_named)
  then have "well_named (heap w') feature (own_enumerable subfeatures)"
    unfolding own_enumerable_def by (rule well_named_filter)
  then show ?thesis using n wn by (simp add: f own_enumerable_def)
qed

theorem defineFeature_names_witness:
  "defineFeature ''two'' [(''Two'', Some nested_mid)] nested_before
     = (nested_root, nested_after) \<and>
   distinct (ref nested_root # refs_of [(''Two'', Some nested_mid)]) \<and>
   name_of nested_after nested_root = ''two'' \<and>
   name_of nested_after nested_mid = ''two.two'' \<and>
   name_of nested_after nested_leaf = ''two.two.one'' \<and>
   properties nested_root = [(''Two'', Some nested_mid)] \<and>
   well_named (heap nested_after) ''two'' [(''Two'', Some nested_mid)]"
proof -
  have p: "defineFeature ''two'' [(''Two'', Some nested_mid)] nested_before
             = (nested_root, nested_after)"
    by (simp add: nested_after_def nested_before_def nested_root_def defineFeature_def
        own_enumerable_def method_names_def world0_def Let_def)
  have d: "distinct (ref nested_root # refs_of [(''Two'', Some nested_mid)])"
    by (simp add: nested_root_def nested_mid_def nested_leaf_def)
  have m: "name_of nested_after nested_mid = ''two.two''"
    "name_of nested_after nested_leaf = ''two.two.one''"
    by (simp_all add: nested_after_def nested_before_def nested_mid_def nested_leaf_def
        defineFeature_def own_enumerable_def method_names_def world0_def Let_def name_of_def)
  from defineFeature_names [OF p d]
  have n: "name_of nested_after nested_root = ''two''"
    and wn: "well_named (heap nested_after) (name_of nested_after nested_root)
               [(''Two'', Some nested_mid)]"
    by blast+
  have "well_named (heap nested_after) ''two'' [(''Two'', Some nested_mid)]"
    using wn unfolding n .
  then show ?thesis using p d m n by (simp add: nested_root_def)
qed

text \<open>
  A subfeature passed under the key of a method is renamed and is not a child of the
  returned object:
  \<^verbatim>\<open>const c = defineFeature("c"); const k = defineFeature("k", { C: c });\<close>
  \<^verbatim>\<open>const p = defineFeature("p", { K: k, $name: c });\<close> returns the tree of \<^verbatim>\<open>p\<close>,
  \<^verbatim>\<open>k\<close> and \<^verbatim>\<open>c\<close>, in which no object occurs twice, with \<^verbatim>\<open>c\<close> named \<^verbatim>\<open>p.c\<close>: the
  object \<^verbatim>\<open>c\<close> occurs twice in the declaration.
\<close>

lemma defineFeature_method_key:
  "defineFeature ''p'' [(''K'', Some method_key_k), (''$name'', Some method_key_c)] method_key_world
     = (method_key_p, method_key_after) \<and>
   properties method_key_p = [(''K'', Some method_key_k)] \<and>
   distinct (ref method_key_p # refs_of (properties method_key_p)) \<and>
   \<not> distinct (ref method_key_p
                 # refs_of [(''K'', Some method_key_k), (''$name'', Some method_key_c)]) \<and>
   name_of method_key_after method_key_k = ''p.k'' \<and>
   name_of method_key_after method_key_c = ''p.c'' \<and>
   \<not> well_named (heap method_key_after) ''p'' (properties method_key_p)"
  by (simp add: method_key_after_def method_key_world_def method_key_p_def method_key_k_def
      method_key_c_def defineFeature_def own_enumerable_def method_names_def world0_def
      Let_def name_of_def emptyCell_def)

text \<open>
  C6 as it stands fails for a subtree attached under two parents: \<^verbatim>\<open>c\<close> is \<^verbatim>\<open>a.c\<close>
  after it is attached under \<^verbatim>\<open>a\<close>; attaching it under \<^verbatim>\<open>b\<close> renames the one object
  to \<^verbatim>\<open>b.c\<close>, so the child seen through \<^verbatim>\<open>a\<close> no longer has the name \<^verbatim>\<open>a.c\<close>.
\<close>

theorem defineFeature_shared_subtree:
  "defineFeature ''b'' [(''C'', Some shared_c)] shared_world_a = (shared_b, shared_world_b) \<and>
   properties shared_a = [(''C'', Some shared_c)] \<and>
   symFeatureLeafName shared_c = ''c'' \<and>
   name_of shared_world_a shared_a = ''a'' \<and>
   name_of shared_world_a shared_c = ''a.c'' \<and>
   name_of shared_world_b shared_a = ''a'' \<and>
   name_of shared_world_b shared_c = ''b.c'' \<and>
   \<not> well_named (heap shared_world_b) (name_of shared_world_b shared_a) (properties shared_a)"
  by (simp add: shared_world_b_def shared_world_a_def defineFeature_def own_enumerable_def method_names_def world0_def Let_def
      name_of_def shared_a_def shared_b_def shared_c_def emptyCell_def)

section \<open>The copy of isFeatureEnabled in src/index.ts\<close>

text \<open>
  C5.  The function of packages/core has no assignment and is a function of the world
  alone: after \<^verbatim>\<open>two.$disable()\<close> it reports \<^verbatim>\<open>two.one\<close> disabled.  The function of
  src/index.ts, asked about \<^verbatim>\<open>two.one\<close> while nothing is set, answers true and stores
  true in \<^verbatim>\<open>two.one\<close>; after \<^verbatim>\<open>two.$disable()\<close> it still answers true.
\<close>

theorem isFeatureEnabled_src_index_caches:
  "enabled_of world_two (FeatureObject 0 ''one'' []) = None \<and>
   isFeatureEnabled_src_index world_two (FeatureObject 0 ''one'' [])
     = (True, set_enabled (FeatureObject 0 ''one'' []) (Some True) world_two) \<and>
   enabled_of (snd (isFeatureEnabled_src_index world_two (FeatureObject 0 ''one'' [])))
     (FeatureObject 0 ''one'' []) = Some True \<and>
   fst (isFeatureEnabled_src_index
          (disable (FeatureObject 1 ''two'' [(''One'', Some (FeatureObject 0 ''one'' []))])
             (snd (isFeatureEnabled_src_index world_two (FeatureObject 0 ''one'' []))))
          (FeatureObject 0 ''one'' [])) = True \<and>
   isFeatureEnabled world_two (FeatureObject 0 ''one'' []) = True \<and>
   isFeatureEnabled
     (disable (FeatureObject 1 ''two'' [(''One'', Some (FeatureObject 0 ''one'' []))]) world_two)
     (FeatureObject 0 ''one'' []) = False"
  by (simp add: isFeatureEnabled_src_index_def isFeatureEnabled_def world_two_def
      enabled_of_def name_of_def parents_of_def set_enabled_def disable_def)

section \<open>registerFeatures\<close>


lemma same_shape_refl: "same_shape w w"
  by (simp add: same_shape_def)

lemma same_shape_apply_features: "same_shape (apply_features ds w) w"
  by (simp add: same_shape_def featureRegistry_apply_features heap_apply_features split: option.splits)











lemma nextRef_register: "nextRef (register features w) = nextRef w"
  by (induction features w rule: register.induct) (simp_all add: Let_def)


lemma same_shape_loadFeaturesFromString:
  "same_shape (world_left (loadFeaturesFromString text w)) w"
proof -
  have "same_shape (loadFeatures ds False u) w" if "same_shape u w" for ds u
    using that same_shape_apply_features [of ds u] by (simp add: same_shape_def loadFeatures_def)
  then show ?thesis
    by (auto simp: loadFeaturesFromString_def Let_def world_left_def same_shape_refl split: sum.splits)
qed

lemma nextRef_loadFeaturesFromString:
  "nextRef (world_left (loadFeaturesFromString text w)) = nextRef w"
  by (auto simp: loadFeaturesFromString_def Let_def world_left_def loadFeatures_def
      nextRef_apply_features split: sum.splits)


lemma same_shape_sym: "same_shape u w \<Longrightarrow> same_shape w u"
  by (simp add: same_shape_def)






section \<open>The registries that the module builds\<close>

text \<open>
  \<open>registry_ok\<close> holds of the empty world and is kept by \<^verbatim>\<open>defineFeature\<close>,
  \<^verbatim>\<open>registerFeatures\<close> (of objects that have been allocated), \<^verbatim>\<open>$enable\<close>,
  \<^verbatim>\<open>$disable\<close> and \<^verbatim>\<open>loadFeaturesFromString\<close>, also when a call throws; it gives
  \<open>roots_found\<close>.
\<close>

lemma registry_ok_world0: "registry_ok world0"
  by (simp add: registry_ok_def world0_def)

lemma registry_ok_roots_found:
  assumes "registry_ok w"
  shows "roots_found w"
  unfolding roots_found_def list_all_iff
proof
  fix f assume "f \<in> set (map snd (featureRegistry w))"
  then obtain k where kf: "(k, f) \<in> set (featureRegistry w)" by auto
  show "includes_dot (name_of w f) \<or>
        map_option ref (map_of (featureRegistry w) (name_of w f)) = Some (ref f)"
  proof (cases "includes_dot (name_of w f)")
    case True
    then show ?thesis by simp
  next
    case False
    then have "k = name_of w f"
      using assms kf by (auto simp: registry_ok_def list_all_iff)
    moreover have "map_of (featureRegistry w) k = Some f"
      using assms kf by (simp add: registry_ok_def)
    ultimately show ?thesis by simp
  qed
qed

lemma registry_ok_same_shape:
  "same_shape u w \<Longrightarrow> nextRef u = nextRef w \<Longrightarrow> registry_ok w \<Longrightarrow> registry_ok u"
  by (simp add: registry_ok_def same_shape_def name_of_def)

lemma registry_ok_set_enabled: "registry_ok w \<Longrightarrow> registry_ok (set_enabled f v w)"
  by (rule registry_ok_same_shape [of _ w])
     (simp_all add: same_shape_def set_enabled_def)

lemma registry_ok_loadFeaturesFromString:
  "registry_ok w \<Longrightarrow> registry_ok (world_left (loadFeaturesFromString t w))"
  using same_shape_loadFeaturesFromString nextRef_loadFeaturesFromString
  by (rule registry_ok_same_shape)

lemma map_fst_map_set:
  "map fst (map_set k v kvs) = (if k \<in> fst ` set kvs then map fst kvs else map fst kvs @ [k])"
  by (induction kvs) force+

lemma distinct_map_set: "distinct (map fst kvs) \<Longrightarrow> distinct (map fst (map_set k v kvs))"
  by (simp add: map_fst_map_set)

lemma set_map_set: "set (map_set k v kvs) \<subseteq> insert (k, v) (set kvs)"
  by (induction kvs) (auto split: if_splits)

lemma registry_ok_map_set:
  assumes "registry_ok w" "ref f < nextRef w"
  shows "registry_ok (w\<lparr>featureRegistry := map_set (name_of w f) f (featureRegistry w)\<rparr>)"
proof -
  have "\<forall>(k, g) \<in> set (map_set (name_of w f) f (featureRegistry w)).
          ref g < nextRef w \<and> (includes_dot (name_of w g) \<or> k = name_of w g)"
    using assms set_map_set [of "name_of w f" f "featureRegistry w"]
    by (auto simp: registry_ok_def list_all_iff)
  then show ?thesis
    using assms(1) by (simp add: registry_ok_def list_all_iff distinct_map_set name_of_def)
qed

lemma registry_ok_register:
  "registry_ok w \<Longrightarrow> \<forall>a \<in> set (refs_of features). a < nextRef w
     \<Longrightarrow> registry_ok (register features w)"
proof (induction features w rule: register.induct)
  case (1 w)
  then show ?case by simp
next
  case (2 featureName rest w)
  then show ?case by simp
next
  case (3 featureName a leaf subs rest w)
  let ?f = "FeatureObject a leaf subs"
  let ?w1 = "w\<lparr>featureRegistry := map_set (name_of w ?f) ?f (featureRegistry w)\<rparr>"
  have ok1: "registry_ok ?w1"
    using "3.prems" by (intro registry_ok_map_set) simp_all
  have "\<forall>x \<in> set (refs_of subs). x < nextRef ?w1" using "3.prems"(2) by simp
  then have ok2: "registry_ok (register subs ?w1)"
    using "3.IH"(1) [OF refl refl ok1] by simp
  have "\<forall>x \<in> set (refs_of rest). x < nextRef (register subs ?w1)"
    using "3.prems"(2) by (simp add: nextRef_register)
  then have "registry_ok (register rest (register subs ?w1))"
    using "3.IH"(2) [OF refl refl refl ok2] by simp
  then show ?case by (simp add: Let_def)
qed

lemma registry_ok_registerFeatures:
  assumes "registry_ok w" "\<forall>a \<in> set (refs_of features). a < nextRef w"
  shows "registry_ok (world_left (registerFeatures features options env w))"
proof -
  let ?w0 = "if override options then w\<lparr>featureRegistry := []\<rparr> else w"
  have "registry_ok ?w0" using assms(1) by (simp add: registry_ok_def)
  moreover have "\<forall>a \<in> set (refs_of features). a < nextRef ?w0" using assms(2) by simp
  ultimately have "registry_ok (register features ?w0)" by (rule registry_ok_register)
  then show ?thesis
    using registry_ok_loadFeaturesFromString [of "register features ?w0"]
    by (simp add: registerFeatures_def Let_def world_left_def)
qed

lemma prefixFeatureName_dotted:
  "a \<in> set (refs_of subs) \<Longrightarrow> includes_dot (symFeatureName (prefixFeatureName p subs h a))"
proof (induction p subs h rule: prefixFeatureName.induct)
  case (1 feature h)
  then show ?case by simp
next
  case (2 feature subfeatureKey rest h)
  then show ?case by simp
next
  case (3 feature subfeatureKey r leaf subs rest h)
  let ?p = "feature @ ''.'' @ leaf"
  let ?h1 = "h(r := (h r)\<lparr>symFeatureName := ?p\<rparr>)"
  let ?h2 = "prefixFeatureName ?p subs ?h1"
  let ?h3 = "prefixFeatureName feature rest ?h2"
  show ?case
  proof (cases "a \<in> set (refs_of rest)")
    case True
    then have "includes_dot (symFeatureName (?h3 a))"
      by (rule "3.IH"(2) [OF refl refl refl])
    then show ?thesis by (simp add: Let_def)
  next
    case rest: False
    then have h3: "?h3 a = ?h2 a" by (rule prefixFeatureName_frame)
    show ?thesis
    proof (cases "a \<in> set (refs_of subs)")
      case True
      then have "includes_dot (symFeatureName (?h2 a))"
        by (rule "3.IH"(1) [OF refl refl])
      then show ?thesis using h3 by (simp add: Let_def)
    next
      case False
      then have "?h2 a = ?h1 a" by (rule prefixFeatureName_frame)
      moreover have "a = r" using "3.prems" rest False by simp
      ultimately show ?thesis using h3 by (simp add: Let_def includes_dot_def)
    qed
  qed
qed

lemma registry_ok_defineFeature:
  assumes "registry_ok w"
  shows "registry_ok (snd (defineFeature feature subfeatures w))"
proof -
  let ?a = "nextRef w"
  let ?h0 = "(heap w)(?a := \<lparr>symFeatureName = feature, symFeatureEnabled = None\<rparr>)"
  let ?h1 = "prefixFeatureName feature subfeatures ?h0"
  have w': "snd (defineFeature feature subfeatures w) = w\<lparr>heap := ?h1, nextRef := Suc ?a\<rparr>"
    by (simp add: defineFeature_def own_enumerable_def method_names_def Let_def)
  have "ref f < Suc ?a \<and>
        (includes_dot (symFeatureName (?h1 (ref f))) \<or> k = symFeatureName (?h1 (ref f)))"
    if kf: "(k, f) \<in> set (featureRegistry w)" for k f
  proof -
    from assms kf have lt: "ref f < ?a"
      and nm: "includes_dot (name_of w f) \<or> k = name_of w f"
      by (auto simp: registry_ok_def list_all_iff)
    show ?thesis
    proof (cases "ref f \<in> set (refs_of subfeatures)")
      case True
      then show ?thesis using lt by (simp add: prefixFeatureName_dotted)
    next
      case False
      then have "?h1 (ref f) = ?h0 (ref f)" by (rule prefixFeatureName_frame)
      then show ?thesis using lt nm by (simp add: name_of_def)
    qed
  qed
  then show ?thesis
    using assms unfolding w' by (auto simp: registry_ok_def list_all_iff name_of_def)
qed


end
